theory Spec2Isabelle
  imports Main
begin

section \<open>Data model of \<open>controllers/bookings.ts\<close>\<close>

text \<open>
  A JavaScript \<open>Date\<close> holds a time value: a number of milliseconds since the epoch of
  absolute value at most 8640000000000000, or \<open>NaN\<close> for an Invalid Date. The model
  writes \<open>Some t\<close> for the first and \<open>None\<close> for the second.
\<close>

type_synonym Date = "int option"

definition maxTimeValue :: int where
  "maxTimeValue = 8640000000000000"

text \<open>\<open>TimeClip\<close> of ECMAScript: a time value out of range becomes \<open>NaN\<close>.\<close>

definition timeClip :: "int \<Rightarrow> Date" where
  "timeClip t = (if - maxTimeValue \<le> t \<and> t \<le> maxTimeValue then Some t else None)"

text \<open>
  The relational operators applied to two \<open>Date\<close> objects compare the time values, and
  every comparison with \<open>NaN\<close> is false.
\<close>

definition date_lt :: "Date \<Rightarrow> Date \<Rightarrow> bool" where
  "date_lt a b = (case (a, b) of (Some x, Some y) \<Rightarrow> x < y | _ \<Rightarrow> False)"

definition date_le :: "Date \<Rightarrow> Date \<Rightarrow> bool" where
  "date_le a b = (case (a, b) of (Some x, Some y) \<Rightarrow> x \<le> y | _ \<Rightarrow> False)"

definition date_gt :: "Date \<Rightarrow> Date \<Rightarrow> bool" where
  "date_gt a b = (case (a, b) of (Some x, Some y) \<Rightarrow> x > y | _ \<Rightarrow> False)"

definition date_ge :: "Date \<Rightarrow> Date \<Rightarrow> bool" where
  "date_ge a b = (case (a, b) of (Some x, Some y) \<Rightarrow> x \<ge> y | _ \<Rightarrow> False)"

definition msPerDay :: int where
  "msPerDay = 86400000"

text \<open>
  The time zone of the server process is not in the sources; it is a parameter of the
  model. ECMAScript reads it through \<open>LocalTZA(t, isUTC)\<close>: the offset of local time
  from UTC in milliseconds, at the UTC time value \<open>t\<close> (\<open>offsetAtUTC\<close>) or at the local
  time value \<open>t\<close> (\<open>offsetAtLocal\<close>).
\<close>

record timeZone =
  offsetAtUTC :: "int \<Rightarrow> int"
  offsetAtLocal :: "int \<Rightarrow> int"

definition utc :: timeZone where
  "utc = \<lparr>offsetAtUTC = (\<lambda>t. 0), offsetAtLocal = (\<lambda>t. 0)\<rparr>"

text \<open>A zone without daylight saving or other changes: one offset at all times.\<close>

definition fixedOffset :: "timeZone \<Rightarrow> bool" where
  "fixedOffset tz = (\<exists>c. \<forall>t. offsetAtUTC tz t = c \<and> offsetAtLocal tz t = c)"

text \<open>
  A zone whose offset, of at most a day, does not change over the time values from \<open>lo\<close>
  to \<open>hi\<close>.
\<close>

definition noOffsetChange :: "timeZone \<Rightarrow> int \<Rightarrow> int \<Rightarrow> bool" where
  "noOffsetChange tz lo hi =
     (\<exists>c. - msPerDay \<le> c \<and> c \<le> msPerDay \<and>
          (\<forall>t. lo \<le> t \<and> t \<le> hi \<longrightarrow> offsetAtUTC tz t = c \<and> offsetAtLocal tz t = c))"

text \<open>
  A zone whose offsets, over all times, lie less than a day apart (daylight saving moves
  them by an hour).
\<close>

definition offsetsWithinADay :: "timeZone \<Rightarrow> bool" where
  "offsetsWithinADay tz = (\<forall>t x. offsetAtLocal tz x - offsetAtUTC tz t < msPerDay)"

text \<open>
  \<open>numberOfNights\<close> is a TypeScript \<open>number\<close> holding an integer count (nothing in the
  controller restricts its sign or size), modelled as an \<open>int\<close>. The check-in date of a
  request or of a stored reservation is a valid \<open>Date\<close>, kept as its time value.

  The interfaces \<open>ExtendedBooking\<close> and \<open>Booking\<close> of the source: \<open>Booking\<close> has the
  three fields of \<open>ExtendedBooking\<close> and \<open>checkInDate\<close>, so it is written as its extension
  and the field names of the source are shared.
\<close>

record ExtendedBooking =
  guestName :: string
  unitID :: string
  numberOfNights :: int

record Booking = ExtendedBooking +
  checkInDate :: int

text \<open>
  Modelled from the spec: the Prisma schema of the \<open>booking\<close> table is not part of the
  sources. A stored reservation has the four fields written by \<open>prisma.booking.create\<close>
  and the identifier that the store assigns on insertion (read as \<open>hasActiveBooking.id\<close>
  by \<open>extendBooking\<close>).
\<close>

record BookingRow = Booking +
  id_col :: nat

text \<open>
  Modelled from the spec: the store behind the Prisma client is not part of the sources.
  It is the table's rows in insertion order, and the next identifier to assign: inserting a
  reservation assigns it an identifier, here by counting up from 1.
\<close>

record store =
  bookings :: "BookingRow list"
  nextId :: nat

definition emptyStore :: store where
  "emptyStore = \<lparr>bookings = [], nextId = 1\<rparr>"

text \<open>
  What a handler sends: \<open>res.status(200).json(row)\<close>, \<open>res.status(400).json(reason)\<close>,
  or no response because the Prisma client threw.
\<close>

datatype response = Status200 BookingRow | Status400 string | PrismaError

section \<open>The Prisma client calls used by the controller\<close>

definition booking_findMany :: "(BookingRow \<Rightarrow> bool) \<Rightarrow> store \<Rightarrow> BookingRow list" where
  "booking_findMany wh s = filter wh (bookings s)"

definition booking_findFirst :: "(BookingRow \<Rightarrow> bool) \<Rightarrow> store \<Rightarrow> BookingRow option" where
  "booking_findFirst wh s = find wh (bookings s)"

definition booking_create :: "Booking \<Rightarrow> store \<Rightarrow> store \<times> BookingRow" where
  "booking_create d s =
     (let row = \<lparr>guestName = guestName d, unitID = unitID d,
                  numberOfNights = numberOfNights d, checkInDate = checkInDate d,
                  id_col = nextId s\<rparr>
      in (s\<lparr>bookings := bookings s @ [row], nextId := Suc (nextId s)\<rparr>, row))"

text \<open>
  \<open>update({where: {id}, data: {numberOfNights}})\<close> rewrites the rows with that identifier
  and returns the updated record; it throws when no row has the identifier.
\<close>

definition booking_update :: "nat \<Rightarrow> int \<Rightarrow> store \<Rightarrow> (store \<times> BookingRow) option" where
  "booking_update i n s =
     (case find (\<lambda>b. id_col b = i) (bookings s) of
        None \<Rightarrow> None
      | Some b \<Rightarrow>
          Some (s\<lparr>bookings :=
                    map (\<lambda>r. if id_col r = i then r\<lparr>numberOfNights := n\<rparr> else r) (bookings s)\<rparr>,
                b\<lparr>numberOfNights := n\<rparr>))"

section \<open>The controller\<close>

text \<open>
  \<open>getCheckoutDate\<close> copies the date and calls \<open>setDate(getDate() + numberOfNights)\<close>. On
  an Invalid Date the result is an Invalid Date. Otherwise \<open>setDate\<close> takes the local time
  \<open>t + LocalTZA(t, true)\<close>, replaces its day of the month by \<open>getDate() + numberOfNights\<close>
  keeping year, month and time within the day, which moves the local time by
  \<open>numberOfNights\<close> days of 86400000 ms, converts back by subtracting
  \<open>LocalTZA(local, false)\<close>, and applies \<open>TimeClip\<close>.
\<close>

definition getCheckoutDate :: "timeZone \<Rightarrow> Date \<Rightarrow> int \<Rightarrow> Date" where
  "getCheckoutDate tz checkInDate' numberOfNights' =
     (case checkInDate' of
        None \<Rightarrow> None
      | Some t \<Rightarrow>
          let localTime = t + offsetAtUTC tz t;
              newDate = localTime + numberOfNights' * msPerDay
          in timeClip (newDate - offsetAtLocal tz newDate))"

text \<open>
  A zone in which a later day of the month is a later time: \<open>setDate\<close> with at least one
  day added moves the date forward.
\<close>

definition daysMoveForward :: "timeZone \<Rightarrow> bool" where
  "daysMoveForward tz =
     (\<forall>t n u. 1 \<le> n \<and> getCheckoutDate tz (Some t) n = Some u \<longrightarrow> t < u)"

definition getAllBookingsOnUnit :: "store \<Rightarrow> string \<Rightarrow> BookingRow list" where
  "getAllBookingsOnUnit s unitID' = booking_findMany (\<lambda>b. unitID b = unitID') s"

text \<open>The condition of the \<open>if\<close> in the loop of \<open>isDateRangeAvailable\<close>.\<close>

definition dateRangeTaken :: "Date \<Rightarrow> Date \<Rightarrow> Date \<Rightarrow> Date \<Rightarrow> bool" where
  "dateRangeTaken checkInDate' newCheckOutDate existingCheckInDate existingCheckOutDate =
     ((date_ge checkInDate' existingCheckInDate \<and> date_lt checkInDate' existingCheckOutDate) \<or>
      (date_gt newCheckOutDate existingCheckInDate \<and>
       date_le newCheckOutDate existingCheckOutDate) \<or>
      (date_le checkInDate' existingCheckInDate \<and>
       date_ge newCheckOutDate existingCheckOutDate))"

text \<open>
  The \<open>for ... of\<close> loop of \<open>isDateRangeAvailable\<close>, returning at the first hit. The
  check-in date of a stored reservation comes back from the store as a valid \<open>Date\<close>.
\<close>

fun isDateRangeAvailable_loop ::
  "timeZone \<Rightarrow> Date \<Rightarrow> Date \<Rightarrow> BookingRow list \<Rightarrow> bool" where
  "isDateRangeAvailable_loop tz checkInDate' newCheckOutDate [] = True"
| "isDateRangeAvailable_loop tz checkInDate' newCheckOutDate (booking # rest) =
     (let existingCheckInDate = Some (checkInDate booking);
          existingCheckOutDate =
            getCheckoutDate tz existingCheckInDate (numberOfNights booking)
      in if dateRangeTaken checkInDate' newCheckOutDate existingCheckInDate existingCheckOutDate
         then False
         else isDateRangeAvailable_loop tz checkInDate' newCheckOutDate rest)"

definition isDateRangeAvailable ::
  "timeZone \<Rightarrow> store \<Rightarrow> Date \<Rightarrow> int \<Rightarrow> string \<Rightarrow> bool" where
  "isDateRangeAvailable tz s checkInDate' numberOfNights' unitID' =
     (let newCheckOutDate = getCheckoutDate tz checkInDate' numberOfNights'
      in isDateRangeAvailable_loop tz checkInDate' newCheckOutDate
           (getAllBookingsOnUnit s unitID'))"

record bookingOutcome =
  result :: bool
  reason :: string

text \<open>
  The three checks of \<open>isBookingPossible\<close>, in the order of the source.
  \<open>new Date(booking.checkInDate)\<close> is the request's valid check-in date.
\<close>

definition isBookingPossible :: "timeZone \<Rightarrow> store \<Rightarrow> Booking \<Rightarrow> bookingOutcome" where
  "isBookingPossible tz s booking =
     (let sameGuestSameUnit =
            booking_findMany
              (\<lambda>b. guestName b = guestName booking \<and> unitID b = unitID booking) s
      in if length sameGuestSameUnit > 0
         then \<lparr>result = False,
               reason = ''The given guest name cannot book the same unit multiple times''\<rparr>
         else
           let sameGuestAlreadyBooked =
                 booking_findMany (\<lambda>b. guestName b = guestName booking) s
           in if length sameGuestAlreadyBooked > 0
              then \<lparr>result = False,
                    reason = ''The same guest cannot be in multiple units at the same time''\<rparr>
              else
                let getAllBookingsForUnit = getAllBookingsOnUnit s (unitID booking)
                in if length getAllBookingsForUnit > 0
                   then
                     let isAvailable =
                           isDateRangeAvailable tz s (Some (checkInDate booking))
                             (numberOfNights booking) (unitID booking)
                     in if \<not> isAvailable
                        then \<lparr>result = False,
                              reason =
                                ''For the given check-in date, the unit is already occupied''\<rparr>
                        else \<lparr>result = True, reason = ''OK''\<rparr>
                   else \<lparr>result = True, reason = ''OK''\<rparr>)"

definition createBooking :: "timeZone \<Rightarrow> store \<Rightarrow> Booking \<Rightarrow> store \<times> response" where
  "createBooking tz s booking =
     (let outcome = isBookingPossible tz s booking
      in if \<not> result outcome then (s, Status400 (reason outcome))
         else
           let (s', bookingResult) =
                 booking_create
                   \<lparr>guestName = guestName booking, unitID = unitID booking,
                    numberOfNights = numberOfNights booking,
                    checkInDate = checkInDate booking\<rparr> s
           in (s', Status200 bookingResult))"

definition extendBooking :: "timeZone \<Rightarrow> store \<Rightarrow> ExtendedBooking \<Rightarrow> store \<times> response" where
  "extendBooking tz s extend' =
     (case booking_findFirst
             (\<lambda>b. guestName b = guestName extend' \<and> unitID b = unitID extend') s of
        None \<Rightarrow> (s, Status400 ''No active bookings found for this guest'')
      | Some hasActiveBooking \<Rightarrow>
          let extendedCheckInDate =
                getCheckoutDate tz (Some (checkInDate hasActiveBooking))
                  (numberOfNights hasActiveBooking);
              isExtendAvailable =
                isDateRangeAvailable tz s extendedCheckInDate (numberOfNights extend')
                  (unitID extend')
          in if \<not> isExtendAvailable
             then (s, Status400
                    ''extend booking is not possible, this unit is already reserved by other customer'')
             else
               (case booking_update (id_col hasActiveBooking)
                       (numberOfNights hasActiveBooking + numberOfNights extend') s of
                  None \<Rightarrow> (s, PrismaError)
                | Some (s', updatedBooking) \<Rightarrow> (s', Status200 updatedBooking)))"

section \<open>The overlap test as the specification words it\<close>

text \<open>
  Two half-open intervals \<open>[aStart, aEnd)\<close> and \<open>[bStart, bEnd)\<close>, each end being the start
  plus the nights in days, overlap iff \<open>aStart < bEnd\<close> and \<open>bStart < aEnd\<close>. The
  specification's dates are calendar dates without a range limit; a day is 86400000 ms.
\<close>

definition intervalsOverlap :: "int \<Rightarrow> int \<Rightarrow> int \<Rightarrow> int \<Rightarrow> bool" where
  "intervalsOverlap aStart aNights bStart bNights =
     (let aEnd = aStart + aNights * msPerDay;
          bEnd = bStart + bNights * msPerDay
      in aStart < bEnd \<and> bStart < aEnd)"

section \<open>Sequences of requests\<close>

text \<open>
  The two mutating endpoints, and a server that handles a list of requests one after the
  other, each on the store left by the one before; the responses are dropped.
\<close>

datatype request = CreateBooking Booking | ExtendBooking ExtendedBooking

fun handle :: "timeZone \<Rightarrow> store \<Rightarrow> request \<Rightarrow> store \<times> response" where
  "handle tz s (CreateBooking booking) = createBooking tz s booking"
| "handle tz s (ExtendBooking extend') = extendBooking tz s extend'"

fun requestNights :: "request \<Rightarrow> int" where
  "requestNights (CreateBooking booking) = numberOfNights booking"
| "requestNights (ExtendBooking extend') = numberOfNights extend'"

fun run :: "timeZone \<Rightarrow> store \<Rightarrow> request list \<Rightarrow> store" where
  "run tz s [] = s"
| "run tz s (r # rs) = run tz (fst (handle tz s r)) rs"

text \<open>
  The check-out date that a request makes the controller compute is a valid \<open>Date\<close>: for a
  booking the requested check-in plus the nights; for an extension of a reservation on
  file that reservation's check-out plus the additional nights.
\<close>

fun requestCheckoutValid :: "timeZone \<Rightarrow> store \<Rightarrow> request \<Rightarrow> bool" where
  "requestCheckoutValid tz s (CreateBooking booking) =
     (getCheckoutDate tz (Some (checkInDate booking)) (numberOfNights booking) \<noteq> None)"
| "requestCheckoutValid tz s (ExtendBooking extend') =
     (case booking_findFirst
             (\<lambda>b. guestName b = guestName extend' \<and> unitID b = unitID extend') s of
        None \<Rightarrow> True
      | Some h \<Rightarrow>
          getCheckoutDate tz
            (getCheckoutDate tz (Some (checkInDate h)) (numberOfNights h))
            (numberOfNights extend') \<noteq> None)"

fun checkoutsValidAlong :: "timeZone \<Rightarrow> store \<Rightarrow> request list \<Rightarrow> bool" where
  "checkoutsValidAlong tz s [] = True"
| "checkoutsValidAlong tz s (r # rs) =
     (requestCheckoutValid tz s r \<and> checkoutsValidAlong tz (fst (handle tz s r)) rs)"

section \<open>The store invariants of the specification\<close>

text \<open>
  No two stored reservations of one unit overlap: every row against every later row.
\<close>

fun unitsDisjoint :: "BookingRow list \<Rightarrow> bool" where
  "unitsDisjoint [] = True"
| "unitsDisjoint (b # rest) =
     ((\<forall>b' \<in> set rest. unitID b' = unitID b \<longrightarrow>
          \<not> intervalsOverlap (checkInDate b) (numberOfNights b)
              (checkInDate b') (numberOfNights b')) \<and>
      unitsDisjoint rest)"

text \<open>A guest has at most one stored reservation, whatever the unit.\<close>

fun oneBookingPerGuest :: "BookingRow list \<Rightarrow> bool" where
  "oneBookingPerGuest [] = True"
| "oneBookingPerGuest (b # rest) =
     ((\<forall>b' \<in> set rest. guestName b' \<noteq> guestName b) \<and> oneBookingPerGuest rest)"

text \<open>
  The inductive invariant behind the first: identifiers are unique and below \<open>nextId\<close>,
  every stored nights count is positive, every stored check-out date is a valid \<open>Date\<close>,
  and rows of one unit with different identifiers do not overlap.
\<close>

definition storeInv :: "timeZone \<Rightarrow> store \<Rightarrow> bool" where
  "storeInv tz s =
     (distinct (map id_col (bookings s)) \<and>
      (\<forall>b \<in> set (bookings s). id_col b < nextId s) \<and>
      (\<forall>b \<in> set (bookings s). 1 \<le> numberOfNights b) \<and>
      (\<forall>b \<in> set (bookings s).
          getCheckoutDate tz (Some (checkInDate b)) (numberOfNights b) \<noteq> None) \<and>
      (\<forall>b \<in> set (bookings s). \<forall>b' \<in> set (bookings s).
          id_col b \<noteq> id_col b' \<longrightarrow> unitID b = unitID b' \<longrightarrow>
          \<not> intervalsOverlap (checkInDate b) (numberOfNights b)
              (checkInDate b') (numberOfNights b')))"

section \<open>Example data\<close>

text \<open>
  Midnight UTC of some days of 2024, as \<open>new Date("2024-03-01").getTime()\<close> gives them:
  days 19781, 19783, 19787, 19788, 19792, 20030 and 20031 after the epoch, times 86400000.
\<close>

definition date_2024_02_28 :: int where
  "date_2024_02_28 = 1709078400000"

definition date_2024_03_01 :: int where
  "date_2024_03_01 = 1709251200000"

definition date_2024_03_05 :: int where
  "date_2024_03_05 = 1709596800000"

definition date_2024_03_06 :: int where
  "date_2024_03_06 = 1709683200000"

definition date_2024_03_10 :: int where
  "date_2024_03_10 = 1710028800000"

definition date_2024_11_03 :: int where
  "date_2024_11_03 = 1730592000000"

definition date_2024_11_04 :: int where
  "date_2024_11_04 = 1730678400000"

definition annBooking :: BookingRow where
  "annBooking = \<lparr>guestName = ''Ann'', unitID = ''U1'', numberOfNights = 5,
                  checkInDate = date_2024_03_01, id_col = 1\<rparr>"

definition bobBooking :: BookingRow where
  "bobBooking = \<lparr>guestName = ''Bob'', unitID = ''U1'', numberOfNights = 3,
                  checkInDate = date_2024_03_06, id_col = 2\<rparr>"

definition cydBooking :: BookingRow where
  "cydBooking = \<lparr>guestName = ''Cyd'', unitID = ''U1'', numberOfNights = 2,
                  checkInDate = date_2024_03_10, id_col = 2\<rparr>"

definition storeAnn :: store where
  "storeAnn = \<lparr>bookings = [annBooking], nextId = 2\<rparr>"

definition storeAnnBob :: store where
  "storeAnnBob = \<lparr>bookings = [annBooking, bobBooking], nextId = 3\<rparr>"

definition storeAnnCyd :: store where
  "storeAnnCyd = \<lparr>bookings = [annBooking, cydBooking], nextId = 3\<rparr>"

text \<open>
  A reservation of 4 nights and one of 0 nights that starts two days later, the requests
  that create them, and the store these requests leave.
\<close>

definition annFourNights :: BookingRow where
  "annFourNights = \<lparr>guestName = ''Ann'', unitID = ''U1'', numberOfNights = 4,
                     checkInDate = date_2024_03_01, id_col = 1\<rparr>"

definition bobZeroNights :: BookingRow where
  "bobZeroNights = \<lparr>guestName = ''Bob'', unitID = ''U1'', numberOfNights = 0,
                     checkInDate = date_2024_03_06, id_col = 2\<rparr>"

definition storeZeroNights :: store where
  "storeZeroNights = \<lparr>bookings = [annFourNights, bobZeroNights], nextId = 3\<rparr>"

definition zeroNightsRequests :: "request list" where
  "zeroNightsRequests =
     [CreateBooking \<lparr>guestName = ''Ann'', unitID = ''U1'', numberOfNights = 4,
                     checkInDate = date_2024_03_01\<rparr>,
      CreateBooking \<lparr>guestName = ''Bob'', unitID = ''U1'', numberOfNights = 0,
                     checkInDate = date_2024_03_06\<rparr>]"

text \<open>The requests that leave \<open>storeAnnCyd\<close>.\<close>

definition annCydRequests :: "request list" where
  "annCydRequests =
     [CreateBooking \<lparr>guestName = ''Ann'', unitID = ''U1'', numberOfNights = 5,
                     checkInDate = date_2024_03_01\<rparr>,
      CreateBooking \<lparr>guestName = ''Cyd'', unitID = ''U1'', numberOfNights = 2,
                     checkInDate = date_2024_03_10\<rparr>]"

definition exampleRequests :: "request list" where
  "exampleRequests =
     [CreateBooking \<lparr>guestName = ''Ann'', unitID = ''U1'', numberOfNights = 5,
                     checkInDate = date_2024_03_01\<rparr>,
      CreateBooking \<lparr>guestName = ''Bob'', unitID = ''U1'', numberOfNights = 3,
                     checkInDate = date_2024_03_06\<rparr>,
      ExtendBooking \<lparr>guestName = ''Ann'', unitID = ''U1'', numberOfNights = 3\<rparr>,
      CreateBooking \<lparr>guestName = ''Cyd'', unitID = ''U1'', numberOfNights = 1,
                     checkInDate = date_2024_03_05\<rparr>,
      ExtendBooking \<lparr>guestName = ''Bob'', unitID = ''U1'', numberOfNights = 2\<rparr>]"

text \<open>
  Two requests with positive nights counts; the second asks for 100000000 nights, which
  puts its check-out date beyond the last valid \<open>Date\<close>.
\<close>

definition overflowRequests :: "request list" where
  "overflowRequests =
     [CreateBooking \<lparr>guestName = ''Ann'', unitID = ''U1'', numberOfNights = 5,
                     checkInDate = date_2024_03_01\<rparr>,
      CreateBooking \<lparr>guestName = ''Bob'', unitID = ''U1'', numberOfNights = 100000000,
                     checkInDate = date_2024_02_28\<rparr>]"

text \<open>
  A zone that sets its clocks back by an hour at 2024-11-03T06:00Z, from four to five
  hours behind UTC; a local time that occurs twice is read as the earlier one.
\<close>

definition fallBackZone :: timeZone where
  "fallBackZone =
     \<lparr>offsetAtUTC = (\<lambda>t. if t < 1730613600000 then - 14400000 else - 18000000),
      offsetAtLocal = (\<lambda>t. if t < 1730599200000 then - 14400000 else - 18000000)\<rparr>"

lemmas controller_defs =
  createBooking_def isBookingPossible_def extendBooking_def isDateRangeAvailable_def
  getAllBookingsOnUnit_def booking_findMany_def booking_findFirst_def booking_create_def
  booking_update_def dateRangeTaken_def getCheckoutDate_def msPerDay_def emptyStore_def
  timeClip_def maxTimeValue_def date_lt_def date_le_def date_gt_def date_ge_def utc_def

lemmas example_defs =
  date_2024_02_28_def date_2024_03_01_def date_2024_03_05_def date_2024_03_06_def
  date_2024_03_10_def date_2024_11_03_def date_2024_11_04_def
  annBooking_def bobBooking_def cydBooking_def storeAnn_def storeAnnBob_def storeAnnCyd_def
  annFourNights_def bobZeroNights_def storeZeroNights_def zeroNightsRequests_def
  annCydRequests_def exampleRequests_def overflowRequests_def

section \<open>Auxiliary facts\<close>

lemma getCheckoutDate_fixed:
  assumes "fixedOffset tz"
  shows "getCheckoutDate tz (Some t) n = timeClip (t + n * msPerDay)"
proof -
  obtain c where c: "\<And>x. offsetAtUTC tz x = c" "\<And>x. offsetAtLocal tz x = c"
    using assms unfolding fixedOffset_def by blast
  show ?thesis by (simp add: getCheckoutDate_def Let_def c)
qed

lemma getCheckoutDate_None: "getCheckoutDate tz None n = None"
  by (simp add: getCheckoutDate_def)

lemma timeClip_Some: "timeClip t \<noteq> None \<Longrightarrow> timeClip t = Some t"
  by (simp add: timeClip_def split: if_splits)

lemma getCheckoutDate_fixed_valid:
  assumes "fixedOffset tz" and "getCheckoutDate tz (Some t) n \<noteq> None"
  shows "getCheckoutDate tz (Some t) n = Some (t + n * msPerDay)"
  using assms timeClip_Some by (simp add: getCheckoutDate_fixed)


lemma getCheckoutDate_forward:
  assumes "offsetsWithinADay tz" and "1 \<le> n" and "getCheckoutDate tz (Some t) n = Some u"
  shows "t < u"
proof -
  let ?x = "t + offsetAtUTC tz t + n * msPerDay"
  have u: "u = ?x - offsetAtLocal tz ?x"
    using assms(3) by (simp add: getCheckoutDate_def Let_def timeClip_def split: if_splits)
  have "offsetAtLocal tz ?x - offsetAtUTC tz t < msPerDay"
    using assms(1) unfolding offsetsWithinADay_def by blast
  moreover have "msPerDay \<le> n * msPerDay"
    using assms(2) by (simp add: msPerDay_def)
  ultimately show ?thesis using u by linarith
qed

lemma fixedOffset_offsetsWithinADay: "fixedOffset tz \<Longrightarrow> offsetsWithinADay tz"
  unfolding fixedOffset_def offsetsWithinADay_def msPerDay_def by auto

lemma fixedOffset_utc: "fixedOffset utc"
  by (simp add: fixedOffset_def utc_def)

lemma loop_iff:
  "isDateRangeAvailable_loop tz c out bs =
     (\<forall>b \<in> set bs. \<not> dateRangeTaken c out (Some (checkInDate b))
                        (getCheckoutDate tz (Some (checkInDate b)) (numberOfNights b)))"
  by (induction bs) (simp_all add: Let_def)

lemma isDateRangeAvailable_iff:
  "isDateRangeAvailable tz s c n u =
     (\<forall>b \<in> set (bookings s). unitID b = u \<longrightarrow>
        \<not> dateRangeTaken c (getCheckoutDate tz c n) (Some (checkInDate b))
            (getCheckoutDate tz (Some (checkInDate b)) (numberOfNights b)))"
  by (auto simp add: isDateRangeAvailable_def getAllBookingsOnUnit_def booking_findMany_def
      loop_iff Let_def)

lemma isBookingPossible_result:
  "result (isBookingPossible tz s b) =
     ((\<forall>r \<in> set (bookings s). guestName r \<noteq> guestName b) \<and>
      isDateRangeAvailable tz s (Some (checkInDate b)) (numberOfNights b) (unitID b))"
  apply (simp add: isBookingPossible_def booking_findMany_def Let_def filter_empty_conv)
  apply (auto simp add: isDateRangeAvailable_iff getAllBookingsOnUnit_def booking_findMany_def
      filter_empty_conv)
  done

lemma createBooking_accept:
  assumes "result (isBookingPossible tz s b)"
  shows "createBooking tz s b =
           (s\<lparr>bookings := bookings s @
                 [\<lparr>guestName = guestName b, unitID = unitID b,
                   numberOfNights = numberOfNights b, checkInDate = checkInDate b,
                   id_col = nextId s\<rparr>],
               nextId := Suc (nextId s)\<rparr>,
            Status200 \<lparr>guestName = guestName b, unitID = unitID b,
                   numberOfNights = numberOfNights b, checkInDate = checkInDate b,
                   id_col = nextId s\<rparr>)"
  using assms by (simp add: createBooking_def booking_create_def Let_def)

lemma createBooking_reject:
  assumes "\<not> result (isBookingPossible tz s b)"
  shows "createBooking tz s b = (s, Status400 (reason (isBookingPossible tz s b)))"
  using assms by (simp add: createBooking_def Let_def)

lemma intervalsOverlap_sym:
  "intervalsOverlap a n b m = intervalsOverlap b m a n"
  by (auto simp add: intervalsOverlap_def Let_def)

lemma taken_overlap_values:
  assumes "1 \<le> n" and "1 \<le> m"
  shows "dateRangeTaken (Some a) (Some (a + n * msPerDay)) (Some b) (Some (b + m * msPerDay))
         = intervalsOverlap a n b m"
  using assms
  unfolding dateRangeTaken_def intervalsOverlap_def Let_def msPerDay_def
    date_lt_def date_le_def date_gt_def date_ge_def
  by auto

lemma taken_overlap:
  assumes "fixedOffset tz" and "1 \<le> n" and "1 \<le> m"
    and "getCheckoutDate tz (Some a) n \<noteq> None"
    and "getCheckoutDate tz (Some b) m \<noteq> None"
  shows "dateRangeTaken (Some a) (getCheckoutDate tz (Some a) n)
           (Some b) (getCheckoutDate tz (Some b) m)
         = intervalsOverlap a n b m"
  using taken_overlap_values [OF assms(2,3)]
    getCheckoutDate_fixed_valid [OF assms(1,4)] getCheckoutDate_fixed_valid [OF assms(1,5)]
  by simp

lemma findFirst_Some:
  assumes "booking_findFirst wh s = Some h"
  shows "h \<in> set (bookings s) \<and> wh h"
  using assms unfolding booking_findFirst_def
  by (auto simp add: find_Some_iff)

lemma findFirst_None:
  "booking_findFirst wh s = None \<longleftrightarrow> (\<forall>b \<in> set (bookings s). \<not> wh b)"
  unfolding booking_findFirst_def by (auto simp add: find_None_iff)

lemma booking_update_found:
  assumes "h \<in> set (bookings s)"
  shows "\<exists>h'. h' \<in> set (bookings s) \<and> id_col h' = id_col h \<and>
           booking_update (id_col h) n s =
             Some (s\<lparr>bookings :=
                      map (\<lambda>r. if id_col r = id_col h then r\<lparr>numberOfNights := n\<rparr> else r)
                        (bookings s)\<rparr>,
                   h'\<lparr>numberOfNights := n\<rparr>)"
proof (cases "find (\<lambda>b. id_col b = id_col h) (bookings s)")
  case None
  then show ?thesis using assms by (auto simp add: find_None_iff)
next
  case (Some h')
  then have "h' \<in> set (bookings s) \<and> id_col h' = id_col h"
    by (auto simp add: find_Some_iff)
  then show ?thesis using Some by (auto simp add: booking_update_def)
qed

lemma same_id_same_row:
  assumes "distinct (map id_col bs)" "b \<in> set bs" "b' \<in> set bs" "id_col b = id_col b'"
  shows "b = b'"
  using assms by (meson distinct_map inj_onD)

lemma extend_no_overlap:
  assumes "1 \<le> m" 
    and "\<not> intervalsOverlap a n b m"
    and "\<not> intervalsOverlap (a + n * msPerDay) k b m"
  shows "\<not> intervalsOverlap a (n + k) b m"
  using assms
  unfolding intervalsOverlap_def Let_def msPerDay_def
  by (auto simp add: distrib_right)

lemma extendBooking_found:
  assumes "booking_findFirst (\<lambda>b. guestName b = guestName e \<and> unitID b = unitID e) s = Some h"
  shows "extendBooking tz s e =
     (if \<not> isDateRangeAvailable tz s
             (getCheckoutDate tz (Some (checkInDate h)) (numberOfNights h))
             (numberOfNights e) (unitID e)
      then (s, Status400
             ''extend booking is not possible, this unit is already reserved by other customer'')
      else (case booking_update (id_col h) (numberOfNights h + numberOfNights e) s of
              None \<Rightarrow> (s, PrismaError)
            | Some (s', updatedBooking) \<Rightarrow> (s', Status200 updatedBooking)))"
  using assms by (simp add: extendBooking_def Let_def)

lemma extendBooking_store:
  assumes "booking_findFirst (\<lambda>b. guestName b = guestName e \<and> unitID b = unitID e) s = Some h"
  shows "fst (extendBooking tz s e) = s \<or>
         (isDateRangeAvailable tz s
             (getCheckoutDate tz (Some (checkInDate h)) (numberOfNights h))
             (numberOfNights e) (unitID e) \<and>
          fst (extendBooking tz s e) =
            s\<lparr>bookings :=
                map (\<lambda>r. if id_col r = id_col h
                         then r\<lparr>numberOfNights := numberOfNights h + numberOfNights e\<rparr> else r)
                  (bookings s)\<rparr>)"
proof -
  have h: "h \<in> set (bookings s)" using findFirst_Some [OF assms] by simp
  obtain h' where "booking_update (id_col h) (numberOfNights h + numberOfNights e) s =
      Some (s\<lparr>bookings :=
                map (\<lambda>r. if id_col r = id_col h
                         then r\<lparr>numberOfNights := numberOfNights h + numberOfNights e\<rparr> else r)
                  (bookings s)\<rparr>,
            h'\<lparr>numberOfNights := numberOfNights h + numberOfNights e\<rparr>)"
    using booking_update_found [OF h] by blast
  then show ?thesis by (simp add: extendBooking_found [OF assms])
qed

lemma map_update_by_id:
  assumes "distinct (map id_col bs)" and "k < length bs"
  shows "map (\<lambda>r. if id_col r = id_col (bs ! k) then g r else r) bs = bs[k := g (bs ! k)]"
proof (rule nth_equalityI)
  show "length (map (\<lambda>r. if id_col r = id_col (bs ! k) then g r else r) bs)
        = length (bs[k := g (bs ! k)])" by simp
next
  fix i assume "i < length (map (\<lambda>r. if id_col r = id_col (bs ! k) then g r else r) bs)"
  then have i: "i < length bs" by simp
  have "id_col (bs ! i) = id_col (bs ! k) \<longleftrightarrow> i = k"
    using assms i nth_eq_iff_index_eq [of "map id_col bs" i k] by auto
  then show "map (\<lambda>r. if id_col r = id_col (bs ! k) then g r else r) bs ! i
             = bs[k := g (bs ! k)] ! i"
    using i assms(2) by (auto simp add: nth_list_update)
qed

lemma offsetsWithinADay_daysMoveForward: "offsetsWithinADay tz \<Longrightarrow> daysMoveForward tz"
  unfolding daysMoveForward_def using getCheckoutDate_forward by blast

lemma fixedOffset_daysMoveForward: "fixedOffset tz \<Longrightarrow> daysMoveForward tz"
  using fixedOffset_offsetsWithinADay offsetsWithinADay_daysMoveForward by blast

lemma self_not_taken:
  assumes "daysMoveForward tz" and "1 \<le> n" and "1 \<le> k"
  shows "\<not> dateRangeTaken (getCheckoutDate tz (Some a) n)
             (getCheckoutDate tz (getCheckoutDate tz (Some a) n) k)
             (Some a) (getCheckoutDate tz (Some a) n)"
proof (cases "getCheckoutDate tz (Some a) n")
  case None
  then show ?thesis
    by (simp add: dateRangeTaken_def date_lt_def date_le_def date_gt_def date_ge_def
        getCheckoutDate_None)
next
  case (Some out)
  have io: "a < out" using assms(1,2) Some unfolding daysMoveForward_def by blast
  show ?thesis
  proof (cases "getCheckoutDate tz (Some out) k")
    case None
    then show ?thesis using Some io
      by (simp add: dateRangeTaken_def date_lt_def date_le_def date_gt_def date_ge_def)
  next
    case (Some out2)
    have "out < out2" using assms(1,3) Some unfolding daysMoveForward_def by blast
    then show ?thesis using \<open>getCheckoutDate tz (Some a) n = Some out\<close> Some io
      by (simp add: dateRangeTaken_def date_lt_def date_le_def date_gt_def date_ge_def)
  qed
qed

lemma createBooking_guests:
  assumes "distinct (map guestName (bookings s))"
  shows "distinct (map guestName (bookings (fst (createBooking tz s b))))"
proof (cases "result (isBookingPossible tz s b)")
  case False
  then show ?thesis using assms by (simp add: createBooking_reject)
next
  case True
  then have "\<forall>r \<in> set (bookings s). guestName r \<noteq> guestName b"
    by (simp add: isBookingPossible_result)
  then show ?thesis using assms by (auto simp add: createBooking_accept [OF True])
qed

lemma extendBooking_guests:
  assumes "distinct (map guestName (bookings s))"
  shows "distinct (map guestName (bookings (fst (extendBooking tz s e))))"
proof (cases "booking_findFirst (\<lambda>b. guestName b = guestName e \<and> unitID b = unitID e) s")
  case None
  then show ?thesis using assms by (simp add: extendBooking_def)
next
  case (Some h)
  let ?f = "\<lambda>r. if id_col r = id_col h
                 then r\<lparr>numberOfNights := numberOfNights h + numberOfNights e\<rparr> else r"
  have gf: "map guestName (map ?f (bookings s)) = map guestName (bookings s)"
    by (induction "bookings s") auto
  have "distinct (map guestName (map ?f (bookings s)))"
    using assms by (simp only: gf)
  then show ?thesis using extendBooking_store [OF Some, of tz] assms by auto
qed

lemma run_guests:
  assumes "distinct (map guestName (bookings s))"
  shows "distinct (map guestName (bookings (run tz s rs)))"
  using assms
proof (induction rs arbitrary: s)
  case Nil
  then show ?case by simp
next
  case (Cons r rs)
  have "distinct (map guestName (bookings (fst (handle tz s r))))"
    using Cons.prems by (cases r) (simp_all add: createBooking_guests extendBooking_guests)
  then show ?case using Cons.IH by simp
qed

lemma distinct_oneBookingPerGuest:
  "distinct (map guestName bs) \<Longrightarrow> oneBookingPerGuest bs"
  by (induction bs) (auto simp add: image_iff)

lemma createBooking_storeInv:
  assumes fo: "fixedOffset tz" and inv: "storeInv tz s" and n: "1 \<le> numberOfNights b"
    and valid: "getCheckoutDate tz (Some (checkInDate b)) (numberOfNights b) \<noteq> None"
  shows "storeInv tz (fst (createBooking tz s b))"
proof (cases "result (isBookingPossible tz s b)")
  case False
  then show ?thesis using inv by (simp add: createBooking_reject)
next
  case True
  have nights: "\<forall>r \<in> set (bookings s). 1 \<le> numberOfNights r"
    and valids: "\<forall>r \<in> set (bookings s).
        getCheckoutDate tz (Some (checkInDate r)) (numberOfNights r) \<noteq> None"
    using inv by (simp_all add: storeInv_def)
  have av: "\<not> intervalsOverlap (checkInDate b) (numberOfNights b)
              (checkInDate r) (numberOfNights r)"
    if "r \<in> set (bookings s)" "unitID r = unitID b" for r
  proof -
    have "\<not> dateRangeTaken (Some (checkInDate b))
            (getCheckoutDate tz (Some (checkInDate b)) (numberOfNights b))
            (Some (checkInDate r))
            (getCheckoutDate tz (Some (checkInDate r)) (numberOfNights r))"
      using True that by (simp add: isBookingPossible_result isDateRangeAvailable_iff)
    then show ?thesis
      using taken_overlap [OF fo n _ valid, of "numberOfNights r" "checkInDate r"]
        nights valids that(1) by simp
  qed
  then have av': "\<not> intervalsOverlap (checkInDate r) (numberOfNights r)
              (checkInDate b) (numberOfNights b)"
    if "r \<in> set (bookings s)" "unitID r = unitID b" for r
    using that intervalsOverlap_sym by blast
  show ?thesis
    using inv n valid av av' unfolding createBooking_accept [OF True] storeInv_def
    by (auto simp add: less_Suc_eq)
qed

lemma extendBooking_storeInv:
  assumes fo: "fixedOffset tz" and inv: "storeInv tz s" and n: "1 \<le> numberOfNights e"
    and valid: "requestCheckoutValid tz s (ExtendBooking e)"
  shows "storeInv tz (fst (extendBooking tz s e))"
proof (cases "booking_findFirst (\<lambda>b. guestName b = guestName e \<and> unitID b = unitID e) s")
  case None
  then show ?thesis using inv by (simp add: extendBooking_def)
next
  case (Some h)
  then have h: "h \<in> set (bookings s)" and hu: "unitID h = unitID e"
    using findFirst_Some by fastforce+
  let ?N = "numberOfNights h + numberOfNights e"
  let ?f = "\<lambda>r. if id_col r = id_col h then r\<lparr>numberOfNights := ?N\<rparr> else r"
  have dist: "distinct (map id_col (bookings s))"
    and nights: "\<forall>b \<in> set (bookings s). 1 \<le> numberOfNights b"
    and valids: "\<forall>b \<in> set (bookings s).
        getCheckoutDate tz (Some (checkInDate b)) (numberOfNights b) \<noteq> None"
    and pair: "\<forall>b \<in> set (bookings s). \<forall>b' \<in> set (bookings s).
        id_col b \<noteq> id_col b' \<longrightarrow> unitID b = unitID b' \<longrightarrow>
        \<not> intervalsOverlap (checkInDate b) (numberOfNights b)
            (checkInDate b') (numberOfNights b')"
    using inv by (simp_all add: storeInv_def)
  have out: "getCheckoutDate tz (Some (checkInDate h)) (numberOfNights h)
             = Some (checkInDate h + numberOfNights h * msPerDay)"
    using getCheckoutDate_fixed_valid [OF fo] valids h by simp
  have out2: "getCheckoutDate tz (Some (checkInDate h + numberOfNights h * msPerDay))
                (numberOfNights e) \<noteq> None"
    using valid Some out by simp
  have newvalid: "getCheckoutDate tz (Some (checkInDate h)) ?N \<noteq> None"
    using out2 by (simp add: getCheckoutDate_fixed [OF fo] distrib_right add.assoc)
  from extendBooking_store [OF Some, of tz] show ?thesis
  proof
    assume "fst (extendBooking tz s e) = s"
    then show ?thesis using inv by simp
  next
    assume ok: "isDateRangeAvailable tz s
             (getCheckoutDate tz (Some (checkInDate h)) (numberOfNights h))
             (numberOfNights e) (unitID e) \<and>
          fst (extendBooking tz s e) = s\<lparr>bookings := map ?f (bookings s)\<rparr>"
    then have fst_eq: "fst (extendBooking tz s e) = s\<lparr>bookings := map ?f (bookings s)\<rparr>"
      by simp
    have idf: "map id_col (map ?f (bookings s)) = map id_col (bookings s)"
      by (induction "bookings s") auto
    have free: "\<not> intervalsOverlap (checkInDate h + numberOfNights h * msPerDay)
          (numberOfNights e) (checkInDate b) (numberOfNights b)"
      if "b \<in> set (bookings s)" "unitID b = unitID e" for b
    proof -
      have "\<not> dateRangeTaken (Some (checkInDate h + numberOfNights h * msPerDay))
              (getCheckoutDate tz (Some (checkInDate h + numberOfNights h * msPerDay))
                 (numberOfNights e))
              (Some (checkInDate b))
              (getCheckoutDate tz (Some (checkInDate b)) (numberOfNights b))"
        using ok that by (simp add: isDateRangeAvailable_iff out)
      then show ?thesis
        using taken_overlap [OF fo n _ out2, of "numberOfNights b" "checkInDate b"]
          nights valids that(1) by simp
    qed
    have ext: "\<not> intervalsOverlap (checkInDate h) ?N (checkInDate b) (numberOfNights b)"
      if "b \<in> set (bookings s)" "unitID b = unitID h" "id_col b \<noteq> id_col h" for b
      using extend_no_overlap [of "numberOfNights b" "checkInDate h" "numberOfNights h"
          "checkInDate b" "numberOfNights e"] that nights pair h free hu
      by metis
    have pair': "\<not> intervalsOverlap (checkInDate (?f b)) (numberOfNights (?f b))
              (checkInDate (?f b')) (numberOfNights (?f b'))"
      if "b \<in> set (bookings s)" "b' \<in> set (bookings s)" "id_col b \<noteq> id_col b'"
        "unitID b = unitID b'" for b b'
    proof (cases "id_col b = id_col h")
      case True
      then have "b = h" using same_id_same_row [OF dist that(1) h] by simp
      then show ?thesis using ext [OF that(2)] that(3,4) by simp
    next
      case False
      note nb = this
      show ?thesis
      proof (cases "id_col b' = id_col h")
        case True
        then have "b' = h" using same_id_same_row [OF dist that(2) h] by simp
        then show ?thesis using ext [OF that(1)] that(3,4) nb intervalsOverlap_sym by simp
      next
        case False
        then show ?thesis using nb pair that by simp
      qed
    qed
    have "distinct (map id_col (map ?f (bookings s)))" by (simp only: idf dist)
    moreover have "\<forall>b \<in> set (map ?f (bookings s)). id_col b < nextId s"
      using inv by (auto simp add: storeInv_def)
    moreover have "\<forall>b \<in> set (map ?f (bookings s)). 1 \<le> numberOfNights b"
      using nights n h by auto
    moreover have "\<forall>b \<in> set (map ?f (bookings s)).
        getCheckoutDate tz (Some (checkInDate b)) (numberOfNights b) \<noteq> None"
    proof
      fix c assume "c \<in> set (map ?f (bookings s))"
      then obtain b where b: "b \<in> set (bookings s)" "c = ?f b" by auto
      show "getCheckoutDate tz (Some (checkInDate c)) (numberOfNights c) \<noteq> None"
      proof (cases "id_col b = id_col h")
        case True
        then have "b = h" using same_id_same_row [OF dist b(1) h] by simp
        then show ?thesis using b(2) newvalid by simp
      next
        case False
        then show ?thesis using b valids by simp
      qed
    qed
    moreover have "\<forall>b \<in> set (map ?f (bookings s)). \<forall>b' \<in> set (map ?f (bookings s)).
          id_col b \<noteq> id_col b' \<longrightarrow> unitID b = unitID b' \<longrightarrow>
          \<not> intervalsOverlap (checkInDate b) (numberOfNights b)
              (checkInDate b') (numberOfNights b')"
    proof (intro ballI impI)
      fix c c' assume c: "c \<in> set (map ?f (bookings s))" and c': "c' \<in> set (map ?f (bookings s))"
        and ne: "id_col c \<noteq> id_col c'" and u: "unitID c = unitID c'"
      from c obtain b where b: "b \<in> set (bookings s)" "c = ?f b" by auto
      from c' obtain b' where b': "b' \<in> set (bookings s)" "c' = ?f b'" by auto
      have "id_col b \<noteq> id_col b'" using ne b b' by (auto split: if_splits)
      moreover have "unitID b = unitID b'" using u b b' by (auto split: if_splits)
      ultimately show "\<not> intervalsOverlap (checkInDate c) (numberOfNights c)
              (checkInDate c') (numberOfNights c')"
        using pair' [OF b(1) b'(1)] b(2) b'(2) by simp
    qed
    ultimately show ?thesis
      unfolding fst_eq storeInv_def by simp
  qed
qed

lemma emptyStore_storeInv: "storeInv tz emptyStore"
  by (simp add: storeInv_def emptyStore_def)

lemma run_storeInv:
  assumes "fixedOffset tz" and "storeInv tz s" and "\<forall>r \<in> set rs. 1 \<le> requestNights r"
    and "checkoutsValidAlong tz s rs"
  shows "storeInv tz (run tz s rs)"
  using assms(2,3,4)
proof (induction rs arbitrary: s)
  case Nil
  then show ?case by simp
next
  case (Cons r rs)
  have "storeInv tz (fst (handle tz s r))"
    using Cons.prems assms(1)
    by (cases r) (simp_all add: createBooking_storeInv extendBooking_storeInv)
  then show ?case using Cons by simp
qed

lemma storeInv_unitsDisjoint_aux:
  "distinct (map id_col bs) \<Longrightarrow>
   (\<forall>b \<in> set bs. \<forall>b' \<in> set bs.
          id_col b \<noteq> id_col b' \<longrightarrow> unitID b = unitID b' \<longrightarrow>
          \<not> intervalsOverlap (checkInDate b) (numberOfNights b)
              (checkInDate b') (numberOfNights b')) \<Longrightarrow> unitsDisjoint bs"
  by (induction bs) auto

lemma storeInv_unitsDisjoint: "storeInv tz s \<Longrightarrow> unitsDisjoint (bookings s)"
  using storeInv_unitsDisjoint_aux unfolding storeInv_def by blast

text \<open>The zone that sets its clocks back is one in which a later day is a later time.\<close>

lemma fallBackZone_daysMoveForward: "daysMoveForward fallBackZone"
  by (rule offsetsWithinADay_daysMoveForward)
    (simp add: offsetsWithinADay_def fallBackZone_def msPerDay_def)

text \<open>Its offset does not change in the first days of March 2024.\<close>

lemma fallBackZone_noOffsetChange:
  "noOffsetChange fallBackZone date_2024_03_01 date_2024_03_10"
  unfolding noOffsetChange_def
  by (rule exI [of _ "- 14400000"]) (simp add: fallBackZone_def msPerDay_def example_defs)

section \<open>The date comparison\<close>

text \<open>
  C1, as the specification states it, fails. A reservation from 2024-02-28 for 100000000
  nights has a check-out date beyond the last valid \<open>Date\<close>; it is an Invalid Date, every
  comparison with it is false, and the three-disjunct comparison against the reservation
  from 2024-03-01 for 5 nights is false while the half-open test is true.
\<close>

theorem dateRangeTaken_invalid_checkout_differs:
  "(1::int) \<le> 100000000 \<and> (1::int) \<le> 5 \<and>
   getCheckoutDate utc (Some date_2024_02_28) 100000000 = None \<and>
   \<not> dateRangeTaken (Some date_2024_02_28) (getCheckoutDate utc (Some date_2024_02_28) 100000000)
       (Some date_2024_03_01) (getCheckoutDate utc (Some date_2024_03_01) 5) \<and>
   intervalsOverlap date_2024_02_28 100000000 date_2024_03_01 5"
  by (simp add: controller_defs example_defs intervalsOverlap_def Let_def)

text \<open>
  The time zone matters as well. In a zone that sets its clocks back by an hour, the
  night of the change has 25 hours: the reservation from 2024-11-03 for 1 night ends an
  hour after midnight UTC of 2024-11-04, and the three-disjunct comparison finds the
  adjacent reservation from 2024-11-04 in its way.
\<close>

lemma dateRangeTaken_fall_back_differs:
  "getCheckoutDate fallBackZone (Some date_2024_11_03) 1 = Some (date_2024_11_04 + 3600000) \<and>
   dateRangeTaken (Some date_2024_11_04) (getCheckoutDate fallBackZone (Some date_2024_11_04) 1)
     (Some date_2024_11_03) (getCheckoutDate fallBackZone (Some date_2024_11_03) 1) \<and>
   \<not> intervalsOverlap date_2024_11_04 1 date_2024_11_03 1"
  by (simp add: controller_defs example_defs fallBackZone_def intervalsOverlap_def Let_def)

text \<open>
  C1, amended. On a server whose time zone has a fixed offset from UTC, for check-in
  dates and nights counts with both nights counts at least 1 and both check-out dates
  valid \<open>Date\<close>s, the three-disjunct comparison of \<open>isDateRangeAvailable\<close> (candidate start
  inside the existing interval, or candidate end inside it, or candidate containing it)
  is true exactly when the half-open test \<open>aStart < bEnd \<and> bStart < aEnd\<close> is, each end
  being the start plus the nights in days.
\<close>

theorem dateRangeTaken_iff_intervalsOverlap:
  assumes "fixedOffset tz"
    and "1 \<le> aNights" and "1 \<le> bNights"
    and "getCheckoutDate tz (Some aStart) aNights \<noteq> None"
    and "getCheckoutDate tz (Some bStart) bNights \<noteq> None"
  shows "dateRangeTaken (Some aStart) (getCheckoutDate tz (Some aStart) aNights)
           (Some bStart) (getCheckoutDate tz (Some bStart) bNights)
         = intervalsOverlap aStart aNights bStart bNights"
proof -
  have a: "getCheckoutDate tz (Some aStart) aNights = Some (aStart + aNights * msPerDay)"
    using getCheckoutDate_fixed_valid [OF assms(1,4)] .
  have b: "getCheckoutDate tz (Some bStart) bNights = Some (bStart + bNights * msPerDay)"
    using getCheckoutDate_fixed_valid [OF assms(1,5)] .
  have a': "aStart < aStart + aNights * msPerDay"
    using assms(2) by (simp add: msPerDay_def)
  have b': "bStart < bStart + bNights * msPerDay"
    using assms(3) by (simp add: msPerDay_def)
  show ?thesis
    unfolding a b dateRangeTaken_def intervalsOverlap_def Let_def
      date_lt_def date_le_def date_gt_def date_ge_def
    using a' b' by auto
qed

theorem dateRangeTaken_iff_intervalsOverlap_witness:
  "fixedOffset utc \<and> (1::int) \<le> 5 \<and> (1::int) \<le> 3 \<and>
   getCheckoutDate utc (Some date_2024_03_01) 5 \<noteq> None \<and>
   getCheckoutDate utc (Some date_2024_03_05) 3 \<noteq> None \<and>
   dateRangeTaken (Some date_2024_03_01) (getCheckoutDate utc (Some date_2024_03_01) 5)
     (Some date_2024_03_05) (getCheckoutDate utc (Some date_2024_03_05) 3)
   = intervalsOverlap date_2024_03_01 5 date_2024_03_05 3 \<and>
   intervalsOverlap date_2024_03_01 5 date_2024_03_05 3"
proof -
  have h1: "fixedOffset utc" by (simp add: fixedOffset_def utc_def)
  have h2: "(1::int) \<le> 5" and h3: "(1::int) \<le> 3" by simp_all
  have h4: "getCheckoutDate utc (Some date_2024_03_01) 5 \<noteq> None"
    and h5: "getCheckoutDate utc (Some date_2024_03_05) 3 \<noteq> None"
    by (simp_all add: controller_defs example_defs Let_def)
  have ov: "intervalsOverlap date_2024_03_01 5 date_2024_03_05 3"
    by (simp add: intervalsOverlap_def msPerDay_def example_defs)
  show ?thesis
    using h1 h4 h5 ov dateRangeTaken_iff_intervalsOverlap [OF h1 h2 h3 h4 h5] by simp
qed

section \<open>The store invariants\<close>

text \<open>
  C2, as the specification states it, fails. Both requests have positive nights counts;
  the second, for 100000000 nights from 2024-02-28, has an Invalid Date as check-out date,
  passes the availability check and is stored over the first reservation of the unit.
\<close>

theorem run_overflow_breaks_unitsDisjoint:
  "list_all (\<lambda>r. 1 \<le> requestNights r) overflowRequests \<and>
   bookings (run utc emptyStore overflowRequests) =
     [annBooking,
      \<lparr>guestName = ''Bob'', unitID = ''U1'', numberOfNights = 100000000,
        checkInDate = date_2024_02_28, id_col = 2\<rparr>] \<and>
   \<not> unitsDisjoint (bookings (run utc emptyStore overflowRequests))"
proof -
  have fin: "bookings (run utc emptyStore overflowRequests) =
     [annBooking,
      \<lparr>guestName = ''Bob'', unitID = ''U1'', numberOfNights = 100000000,
        checkInDate = date_2024_02_28, id_col = 2\<rparr>]"
    by (simp add: controller_defs example_defs Let_def)
  show ?thesis
    unfolding fin
    by (simp add: example_defs intervalsOverlap_def msPerDay_def)
qed

text \<open>
  C2, amended. Starting from the empty store, every sequence of \<open>createBooking\<close> and
  \<open>extendBooking\<close> requests whose nights counts are at least 1 leaves a store in which
  every guest has at most one reservation over all units. On a server whose time zone
  has a fixed offset from UTC, and when the check-out date of every request (check-in
  plus nights of a booking, current check-out plus additional nights of an extension) is a
  valid \<open>Date\<close>, it also leaves a store in which no two reservations of the same unit have
  overlapping intervals \<open>[checkIn, checkIn + nights)\<close>.
\<close>

theorem run_preserves_invariants:
  assumes "\<forall>r \<in> set rs. 1 \<le> requestNights r"
  shows "oneBookingPerGuest (bookings (run tz emptyStore rs)) \<and>
         (fixedOffset tz \<and> checkoutsValidAlong tz emptyStore rs \<longrightarrow>
          unitsDisjoint (bookings (run tz emptyStore rs)))"
proof -
  have "distinct (map guestName (bookings (emptyStore :: store)))"
    by (simp add: emptyStore_def)
  then have g: "oneBookingPerGuest (bookings (run tz emptyStore rs))"
    using run_guests distinct_oneBookingPerGuest by blast
  have u: "unitsDisjoint (bookings (run tz emptyStore rs))"
    if "fixedOffset tz" "checkoutsValidAlong tz emptyStore rs"
    using run_storeInv [OF that(1) emptyStore_storeInv assms that(2)] storeInv_unitsDisjoint
    by blast
  show ?thesis using g u by blast
qed

theorem run_preserves_invariants_witness:
  "list_all (\<lambda>r. 1 \<le> requestNights r) exampleRequests \<and>
   fixedOffset utc \<and> checkoutsValidAlong utc emptyStore exampleRequests \<and>
   oneBookingPerGuest (bookings (run utc emptyStore exampleRequests)) \<and>
   unitsDisjoint (bookings (run utc emptyStore exampleRequests)) \<and>
   bookings (run utc emptyStore exampleRequests) =
     [annBooking, bobBooking\<lparr>numberOfNights := 5\<rparr>]"
proof -
  have h: "\<forall>r \<in> set exampleRequests. 1 \<le> requestNights r"
    by (simp add: exampleRequests_def)
  have fo: "fixedOffset utc" by (simp add: fixedOffset_def utc_def)
  have v: "checkoutsValidAlong utc emptyStore exampleRequests"
    by (simp add: controller_defs example_defs Let_def)
  have fin: "bookings (run utc emptyStore exampleRequests) =
      [annBooking, bobBooking\<lparr>numberOfNights := 5\<rparr>]"
    by (simp add: controller_defs example_defs Let_def)
  show ?thesis
    using h fo v fin run_preserves_invariants [OF h, of utc] by (simp add: list_all_iff)
qed

section \<open>The rules of \<open>createBooking\<close>\<close>

text \<open>
  C3. When some stored reservation has the guest and the unit of the request,
  \<open>createBooking\<close> answers 400 with the reason that the guest cannot book the same unit
  multiple times and inserts nothing. The dates play no part, and the first check wins
  although the condition of the second (the guest has a reservation) holds as well.
\<close>

theorem createBooking_same_guest_same_unit:
  assumes "\<exists>r \<in> set (bookings s). guestName r = guestName b \<and> unitID r = unitID b"
  shows "createBooking tz s b =
           (s, Status400 ''The given guest name cannot book the same unit multiple times'')"
proof -
  have "filter (\<lambda>r. guestName r = guestName b \<and> unitID r = unitID b) (bookings s) \<noteq> []"
    using assms by (simp add: filter_empty_conv)
  then show ?thesis
    by (simp add: createBooking_def isBookingPossible_def booking_findMany_def Let_def)
qed

theorem createBooking_same_guest_same_unit_witness:
  "(\<exists>r \<in> set (bookings storeAnn). guestName r = ''Ann'' \<and> unitID r = ''U1'') \<and>
   \<not> intervalsOverlap date_2024_03_06 3 (checkInDate annBooking) (numberOfNights annBooking) \<and>
   createBooking utc storeAnn
      \<lparr>guestName = ''Ann'', unitID = ''U1'', numberOfNights = 3, checkInDate = date_2024_03_06\<rparr>
   = (storeAnn, Status400 ''The given guest name cannot book the same unit multiple times'')"
  using createBooking_same_guest_same_unit
    [of storeAnn
      "\<lparr>guestName = ''Ann'', unitID = ''U1'', numberOfNights = 3,
        checkInDate = date_2024_03_06\<rparr>" utc]
  by (simp add: example_defs intervalsOverlap_def msPerDay_def)

text \<open>
  C4. When the guest of the request has a stored reservation, but none for the unit of
  the request, \<open>createBooking\<close> answers 400 with the reason that the guest cannot be in
  multiple units at the same time and inserts nothing, whatever the dates.
\<close>

theorem createBooking_guest_in_other_unit:
  assumes "\<exists>r \<in> set (bookings s). guestName r = guestName b"
    and "\<forall>r \<in> set (bookings s). guestName r = guestName b \<longrightarrow> unitID r \<noteq> unitID b"
  shows "createBooking tz s b =
           (s, Status400 ''The same guest cannot be in multiple units at the same time'')"
proof -
  have "filter (\<lambda>r. guestName r = guestName b \<and> unitID r = unitID b) (bookings s) = []"
    using assms(2) by (auto simp add: filter_empty_conv)
  moreover have "filter (\<lambda>r. guestName r = guestName b) (bookings s) \<noteq> []"
    using assms(1) by (simp add: filter_empty_conv)
  ultimately show ?thesis
    by (simp add: createBooking_def isBookingPossible_def booking_findMany_def Let_def)
qed

theorem createBooking_guest_in_other_unit_witness:
  "(\<exists>r \<in> set (bookings storeAnn). guestName r = ''Ann'') \<and>
   list_all (\<lambda>r. guestName r = ''Ann'' \<longrightarrow> unitID r \<noteq> ''U2'') (bookings storeAnn) \<and>
   createBooking utc storeAnn
      \<lparr>guestName = ''Ann'', unitID = ''U2'', numberOfNights = 3, checkInDate = date_2024_03_06\<rparr>
   = (storeAnn, Status400 ''The same guest cannot be in multiple units at the same time'')"
  using createBooking_guest_in_other_unit
    [of storeAnn
      "\<lparr>guestName = ''Ann'', unitID = ''U2'', numberOfNights = 3,
        checkInDate = date_2024_03_06\<rparr>" utc]
  by (simp add: example_defs)



text \<open>
  C9, as the specification states it, fails: a booking request with a non-positive nights
  count does not surface a failure. On the empty store a request for 0 nights is
  answered 200 and the reservation is stored.
\<close>

theorem createBooking_zero_nights_persisted:
  "createBooking utc emptyStore
     \<lparr>guestName = ''Ann'', unitID = ''U1'', numberOfNights = 0, checkInDate = date_2024_03_01\<rparr>
   = (\<lparr>bookings = [\<lparr>guestName = ''Ann'', unitID = ''U1'', numberOfNights = 0,
                      checkInDate = date_2024_03_01, id_col = 1\<rparr>],
       nextId = 2\<rparr>,
      Status200 \<lparr>guestName = ''Ann'', unitID = ''U1'', numberOfNights = 0,
                 checkInDate = date_2024_03_01, id_col = 1\<rparr>)"
  by (simp add: controller_defs Let_def)

text \<open>
  C9, amended. The controller does not look at the sign of the nights count and raises
  nothing for it. A booking request with a non-positive nights count is answered like
  any other: when the guest has no stored reservation and the date comparison of
  \<open>isDateRangeAvailable\<close> finds no stored reservation of the unit in the way, the
  reservation is stored with that nights count and the answer is 200; otherwise the store
  is unchanged and the answer is 400 with the reason of the failed rule.
\<close>

theorem createBooking_nonpositive_nights_not_validated:
  assumes "numberOfNights b \<le> 0"
  shows "createBooking tz s b =
           (if (\<forall>r \<in> set (bookings s). guestName r \<noteq> guestName b) \<and>
               isDateRangeAvailable tz s (Some (checkInDate b)) (numberOfNights b) (unitID b)
            then (s\<lparr>bookings := bookings s @
                       [\<lparr>guestName = guestName b, unitID = unitID b,
                         numberOfNights = numberOfNights b, checkInDate = checkInDate b,
                         id_col = nextId s\<rparr>],
                     nextId := Suc (nextId s)\<rparr>,
                  Status200 \<lparr>guestName = guestName b, unitID = unitID b,
                             numberOfNights = numberOfNights b, checkInDate = checkInDate b,
                             id_col = nextId s\<rparr>)
            else (s, Status400 (reason (isBookingPossible tz s b))))"
proof (cases "result (isBookingPossible tz s b)")
  case True
  then show ?thesis
    using createBooking_accept [OF True] by (simp add: isBookingPossible_result)
next
  case False
  then show ?thesis
    using createBooking_reject [OF False] by (simp add: isBookingPossible_result)
qed

theorem createBooking_nonpositive_nights_not_validated_witness:
  "(- 2 :: int) \<le> 0 \<and>
   createBooking utc storeAnn
     \<lparr>guestName = ''Bob'', unitID = ''U2'', numberOfNights = - 2,
      checkInDate = date_2024_03_05\<rparr>
   = (\<lparr>bookings = [annBooking,
                    \<lparr>guestName = ''Bob'', unitID = ''U2'', numberOfNights = - 2,
                      checkInDate = date_2024_03_05, id_col = 2\<rparr>],
       nextId = 3\<rparr>,
      Status200 \<lparr>guestName = ''Bob'', unitID = ''U2'', numberOfNights = - 2,
                 checkInDate = date_2024_03_05, id_col = 2\<rparr>)"
  using createBooking_nonpositive_nights_not_validated
    [of "\<lparr>guestName = ''Bob'', unitID = ''U2'', numberOfNights = - 2,
          checkInDate = date_2024_03_05\<rparr>" utc storeAnn]
  by (simp add: isDateRangeAvailable_iff storeAnn_def annBooking_def)

section \<open>The rules of \<open>extendBooking\<close>\<close>


text \<open>
  A stored reservation without nights breaks the equivalence too. After Ann's booking of
  4 nights from 2024-03-01 and Bob's of 0 nights from 2024-03-06, extending Ann's
  reservation by 1 night is rejected, although no other reservation overlaps the
  candidate interval from 2024-03-05 to 2024-03-06.
\<close>

lemma extendBooking_zero_nights_row_rejects:
  "run utc emptyStore zeroNightsRequests = storeZeroNights \<and>
   booking_findFirst (\<lambda>b. guestName b = ''Ann'' \<and> unitID b = ''U1'') storeZeroNights
     = Some annFourNights \<and>
   getCheckoutDate utc (Some (checkInDate annFourNights)) (numberOfNights annFourNights)
     = Some date_2024_03_05 \<and>
   extendBooking utc storeZeroNights \<lparr>guestName = ''Ann'', unitID = ''U1'', numberOfNights = 1\<rparr>
     = (storeZeroNights, Status400
         ''extend booking is not possible, this unit is already reserved by other customer'') \<and>
   \<not> (\<exists>r \<in> set (getAllBookingsOnUnit storeZeroNights ''U1''). r \<noteq> annFourNights \<and>
         intervalsOverlap date_2024_03_05 1 (checkInDate r) (numberOfNights r))"
proof -
  have r: "run utc emptyStore zeroNightsRequests = storeZeroNights"
    by (simp add: controller_defs example_defs Let_def)
  have e: "extendBooking utc storeZeroNights
       \<lparr>guestName = ''Ann'', unitID = ''U1'', numberOfNights = 1\<rparr>
     = (storeZeroNights, Status400
         ''extend booking is not possible, this unit is already reserved by other customer'')"
    by (simp add: controller_defs example_defs Let_def)
  show ?thesis
    unfolding r e
    by (simp add: controller_defs example_defs intervalsOverlap_def Let_def)
qed



text \<open>
  C7. When no stored reservation has both the guest and the unit of the request,
  \<open>extendBooking\<close> answers 400 with the no-active-booking reason and leaves the store as
  it is, whatever else is stored.
\<close>

theorem extendBooking_no_active_booking:
  assumes "\<forall>r \<in> set (bookings s). \<not> (guestName r = guestName e \<and> unitID r = unitID e)"
  shows "extendBooking tz s e = (s, Status400 ''No active bookings found for this guest'')"
proof -
  have "booking_findFirst (\<lambda>b. guestName b = guestName e \<and> unitID b = unitID e) s = None"
    using assms by (simp add: findFirst_None)
  then show ?thesis by (simp add: extendBooking_def)
qed

theorem extendBooking_no_active_booking_witness:
  "list_all (\<lambda>r. \<not> (guestName r = ''Ann'' \<and> unitID r = ''U2'')) (bookings storeAnnBob) \<and>
   extendBooking utc storeAnnBob \<lparr>guestName = ''Ann'', unitID = ''U2'', numberOfNights = 1\<rparr>
     = (storeAnnBob, Status400 ''No active bookings found for this guest'')"
  using extendBooking_no_active_booking
    [of storeAnnBob "\<lparr>guestName = ''Ann'', unitID = ''U2'', numberOfNights = 1\<rparr>" utc]
  by (simp add: example_defs)

text \<open>
  C8. On a table with unique identifiers, a successful extension changes one thing in
  the store: at the position of the matched reservation the nights count has grown by
  the additional nights. Check-in date, guest, unit and identifier of that reservation
  are as before, every other reservation and the identifier counter are unchanged, and
  the updated reservation is what is returned.
\<close>

theorem extendBooking_success_frame:
  assumes ids: "distinct (map id_col (bookings s))"
    and ok: "extendBooking tz s e = (s', Status200 r')"
  shows "\<exists>k < length (bookings s).
           guestName (bookings s ! k) = guestName e \<and>
           unitID (bookings s ! k) = unitID e \<and>
           numberOfNights r' = numberOfNights (bookings s ! k) + numberOfNights e \<and>
           checkInDate r' = checkInDate (bookings s ! k) \<and>
           guestName r' = guestName (bookings s ! k) \<and>
           unitID r' = unitID (bookings s ! k) \<and>
           id_col r' = id_col (bookings s ! k) \<and>
           s' = s\<lparr>bookings := (bookings s)[k := r']\<rparr>"
proof (cases "booking_findFirst (\<lambda>b. guestName b = guestName e \<and> unitID b = unitID e) s")
  case None
  then show ?thesis using ok by (simp add: extendBooking_def)
next
  case (Some h)
  have h: "h \<in> set (bookings s)" and hg: "guestName h = guestName e"
    and hu: "unitID h = unitID e"
    using findFirst_Some [OF Some] by simp_all
  let ?N = "numberOfNights h + numberOfNights e"
  obtain h' where h': "h' \<in> set (bookings s)" "id_col h' = id_col h"
    and upd: "booking_update (id_col h) ?N s =
        Some (s\<lparr>bookings := map (\<lambda>r. if id_col r = id_col h then r\<lparr>numberOfNights := ?N\<rparr> else r)
                        (bookings s)\<rparr>, h'\<lparr>numberOfNights := ?N\<rparr>)"
    using booking_update_found [OF h] by blast
  have "h' = h" using same_id_same_row [OF ids h'(1) h h'(2)] .
  from ok have s': "s' = s\<lparr>bookings :=
        map (\<lambda>r. if id_col r = id_col h then r\<lparr>numberOfNights := ?N\<rparr> else r) (bookings s)\<rparr>"
    and r': "r' = h\<lparr>numberOfNights := ?N\<rparr>"
    using upd \<open>h' = h\<close> by (auto simp add: extendBooking_found [OF Some] split: if_splits)
  obtain k where k: "k < length (bookings s)" "bookings s ! k = h"
    using h by (auto simp add: in_set_conv_nth)
  have "map (\<lambda>r. if id_col r = id_col h then r\<lparr>numberOfNights := ?N\<rparr> else r) (bookings s)
        = (bookings s)[k := r']"
    using map_update_by_id [OF ids k(1), of "\<lambda>r. r\<lparr>numberOfNights := ?N\<rparr>"] k(2) r' by simp
  then show ?thesis using k hg hu r' s' by auto
qed

theorem extendBooking_success_frame_witness:
  "distinct (map id_col (bookings storeAnnBob)) \<and>
   extendBooking utc storeAnnBob \<lparr>guestName = ''Bob'', unitID = ''U1'', numberOfNights = 2\<rparr>
     = (storeAnnBob\<lparr>bookings := [annBooking, bobBooking\<lparr>numberOfNights := 5\<rparr>]\<rparr>,
        Status200 (bobBooking\<lparr>numberOfNights := 5\<rparr>)) \<and>
   (\<exists>k < length (bookings storeAnnBob).
      guestName (bookings storeAnnBob ! k) = ''Bob'' \<and>
      unitID (bookings storeAnnBob ! k) = ''U1'' \<and>
      numberOfNights (bobBooking\<lparr>numberOfNights := 5\<rparr>)
        = numberOfNights (bookings storeAnnBob ! k) + 2 \<and>
      storeAnnBob\<lparr>bookings := [annBooking, bobBooking\<lparr>numberOfNights := 5\<rparr>]\<rparr>
        = storeAnnBob\<lparr>bookings := (bookings storeAnnBob)[k := bobBooking\<lparr>numberOfNights := 5\<rparr>]\<rparr>)"
proof -
  have h1: "distinct (map id_col (bookings storeAnnBob))"
    by (simp add: example_defs)
  have h2: "extendBooking utc storeAnnBob
       \<lparr>guestName = ''Bob'', unitID = ''U1'', numberOfNights = 2\<rparr>
     = (storeAnnBob\<lparr>bookings := [annBooking, bobBooking\<lparr>numberOfNights := 5\<rparr>]\<rparr>,
        Status200 (bobBooking\<lparr>numberOfNights := 5\<rparr>))"
    by (simp add: controller_defs example_defs Let_def)
  show ?thesis
    using h1 h2 extendBooking_success_frame [OF h1 h2] by auto
qed

text \<open>
  C10. \<open>extendBooking\<close> passes the unit's whole list of reservations to the availability
  check, the reservation being extended included (nothing is excluded by identifier).
  For a reservation of at least 1 night and at least 1 additional night, the comparison
  of the candidate interval, which starts at the reservation's checkout, with the
  reservation's own interval is false, the two intervals being adjacent. So
  \<open>extendBooking\<close> answers with the extend-not-possible reason exactly when the loop of
  the availability check fails on the list without that reservation: the self-comparison
  never causes a rejection. The server's time zone is one in which a later day is a
  later time.
\<close>

theorem extendBooking_self_comparison_harmless:
  assumes tz: "daysMoveForward tz"
    and found: "booking_findFirst (\<lambda>b. guestName b = guestName e \<and> unitID b = unitID e) s
                  = Some h"
    and hn: "1 \<le> numberOfNights h" and add: "1 \<le> numberOfNights e"
  shows "h \<in> set (getAllBookingsOnUnit s (unitID e)) \<and>
         \<not> dateRangeTaken (getCheckoutDate tz (Some (checkInDate h)) (numberOfNights h))
             (getCheckoutDate tz
                (getCheckoutDate tz (Some (checkInDate h)) (numberOfNights h))
                (numberOfNights e))
             (Some (checkInDate h))
             (getCheckoutDate tz (Some (checkInDate h)) (numberOfNights h)) \<and>
         (extendBooking tz s e =
            (s, Status400
              ''extend booking is not possible, this unit is already reserved by other customer'')
          \<longleftrightarrow>
          \<not> isDateRangeAvailable_loop tz
              (getCheckoutDate tz (Some (checkInDate h)) (numberOfNights h))
              (getCheckoutDate tz
                 (getCheckoutDate tz (Some (checkInDate h)) (numberOfNights h))
                 (numberOfNights e))
              (filter (\<lambda>b. b \<noteq> h) (getAllBookingsOnUnit s (unitID e))))"
proof -
  let ?out = "getCheckoutDate tz (Some (checkInDate h)) (numberOfNights h)"
  let ?out2 = "getCheckoutDate tz ?out (numberOfNights e)"
  have h: "h \<in> set (bookings s)" and hu: "unitID h = unitID e"
    using findFirst_Some [OF found] by simp_all
  have mem: "h \<in> set (getAllBookingsOnUnit s (unitID e))"
    using h hu by (simp add: getAllBookingsOnUnit_def booking_findMany_def)
  note self = self_not_taken [OF tz hn add, of "checkInDate h"]
  have skip: "isDateRangeAvailable tz s ?out (numberOfNights e) (unitID e)
         = isDateRangeAvailable_loop tz ?out ?out2
             (filter (\<lambda>b. b \<noteq> h) (getAllBookingsOnUnit s (unitID e)))"
    unfolding isDateRangeAvailable_def Let_def loop_iff using self by auto
  have upd: "\<exists>x. booking_update (id_col h) (numberOfNights h + numberOfNights e) s = Some x"
    using booking_update_found [OF h] by blast
  have "extendBooking tz s e =
            (s, Status400
              ''extend booking is not possible, this unit is already reserved by other customer'')
        \<longleftrightarrow> \<not> isDateRangeAvailable tz s ?out (numberOfNights e) (unitID e)"
    using upd by (auto simp add: extendBooking_found [OF found] split: prod.splits)
  then show ?thesis using mem self skip by simp
qed

theorem extendBooking_self_comparison_harmless_witness:
  "daysMoveForward utc \<and>
   booking_findFirst (\<lambda>b. guestName b = ''Ann'' \<and> unitID b = ''U1'') storeAnn
     = Some annBooking \<and>
   1 \<le> numberOfNights annBooking \<and> (1::int) \<le> 3 \<and>
   annBooking \<in> set (getAllBookingsOnUnit storeAnn ''U1'') \<and>
   extendBooking utc storeAnn \<lparr>guestName = ''Ann'', unitID = ''U1'', numberOfNights = 3\<rparr>
     \<noteq> (storeAnn, Status400
         ''extend booking is not possible, this unit is already reserved by other customer'') \<and>
   extendBooking utc storeAnn \<lparr>guestName = ''Ann'', unitID = ''U1'', numberOfNights = 3\<rparr>
     = (storeAnn\<lparr>bookings := [annBooking\<lparr>numberOfNights := 8\<rparr>]\<rparr>,
        Status200 (annBooking\<lparr>numberOfNights := 8\<rparr>))"
proof -
  let ?e = "\<lparr>guestName = ''Ann'', unitID = ''U1'', numberOfNights = 3\<rparr>"
  have h0: "daysMoveForward utc"
    by (rule fixedOffset_daysMoveForward) (simp add: fixedOffset_def utc_def)
  have h1: "booking_findFirst (\<lambda>b. guestName b = guestName ?e \<and> unitID b = unitID ?e)
      storeAnn = Some annBooking"
    by (simp add: booking_findFirst_def example_defs)
  have h2: "1 \<le> numberOfNights annBooking"
    by (simp add: annBooking_def)
  have h3: "1 \<le> numberOfNights ?e"
    by simp
  have flt: "filter (\<lambda>b. b \<noteq> annBooking) (getAllBookingsOnUnit storeAnn ''U1'') = []"
    by (simp add: getAllBookingsOnUnit_def booking_findMany_def storeAnn_def annBooking_def)
  have notrej: "extendBooking utc storeAnn ?e
     \<noteq> (storeAnn, Status400
         ''extend booking is not possible, this unit is already reserved by other customer'')"
    and mem: "annBooking \<in> set (getAllBookingsOnUnit storeAnn (unitID ?e))"
    using extendBooking_self_comparison_harmless [OF h0 h1 h2 h3] by (simp_all add: flt)
  have res: "extendBooking utc storeAnn ?e
     = (storeAnn\<lparr>bookings := [annBooking\<lparr>numberOfNights := 8\<rparr>]\<rparr>,
        Status200 (annBooking\<lparr>numberOfNights := 8\<rparr>))"
    by (simp add: controller_defs example_defs Let_def)
  show ?thesis
    using h0 h1 h2 h3 notrej mem res by simp
qed

end
